theory Spec2Isabelle
  imports Complex_Main
begin

section \<open>Strings and messages\<close>

text \<open>
  A Python \<open>str\<close> is a sequence of Unicode code points, so a string is a list
  of code points here (a \<open>char\<close> of HOL is a byte and cannot hold the Devanagari
  aliases of the synonym table). ASCII literals are written with \<open>ascii\<close>.
\<close>

type_synonym pystr = "nat list"

definition ascii :: "string \<Rightarrow> pystr" where
  "ascii s = map of_char s"

text \<open>\<open>app/schemas.py\<close>: \<open>Message\<close>, whose role is one of three literals.\<close>

datatype role = System | User | Assistant

record message =
  role :: role
  content :: pystr

section \<open>The history store (\<open>app/services/memory.py\<close>)\<close>

text \<open>
  \<open>collections.deque(maxlen=n)\<close>: \<open>append\<close> adds at the right and, when the
  length then exceeds \<open>maxlen\<close>, drops one element at the left.
\<close>

record 'a deque =
  maxlen :: nat
  items :: "'a list"

definition deque_new :: "nat \<Rightarrow> 'a deque" where
  "deque_new n = \<lparr>maxlen = n, items = []\<rparr>"

definition deque_append :: "'a deque \<Rightarrow> 'a \<Rightarrow> 'a deque" where
  "deque_append d x =
     (let xs = items d @ [x]
      in d\<lparr>items := (if length xs > maxlen d then tl xs else xs)\<rparr>)"

record conversation_memory =
  max_messages :: nat
  store :: "pystr \<rightharpoonup> message deque"

text \<open>\<open>ConversationMemory.__init__\<close>\<close>

definition ConversationMemory :: "nat \<Rightarrow> conversation_memory" where
  "ConversationMemory n = \<lparr>max_messages = n, store = Map.empty\<rparr>"

definition get_history :: "conversation_memory \<Rightarrow> pystr \<Rightarrow> message list" where
  "get_history mem conversation_id =
     (case store mem conversation_id of
        None \<Rightarrow> []
      | Some d \<Rightarrow> items d)"

definition set_history ::
  "conversation_memory \<Rightarrow> pystr \<Rightarrow> message list \<Rightarrow> conversation_memory" where
  "set_history mem conversation_id messages =
     (let limited = fold (\<lambda>m d. deque_append d m) messages (deque_new (max_messages mem))
      in mem\<lparr>store := (store mem)(conversation_id \<mapsto> limited)\<rparr>)"

definition append_messages ::
  "conversation_memory \<Rightarrow> pystr \<Rightarrow> message list \<Rightarrow> conversation_memory" where
  "append_messages mem conversation_id messages =
     (let history = (case store mem conversation_id of
                       None \<Rightarrow> deque_new (max_messages mem)
                     | Some d \<Rightarrow> d)
      in mem\<lparr>store := (store mem)(conversation_id \<mapsto>
                 fold (\<lambda>m d. deque_append d m) messages history)\<rparr>)"

definition clear :: "conversation_memory \<Rightarrow> pystr \<Rightarrow> conversation_memory" where
  "clear mem conversation_id = mem\<lparr>store := (store mem)(conversation_id := None)\<rparr>"

text \<open>A run of \<open>append_messages\<close> calls, each with its identifier and its batch.\<close>

definition append_calls ::
  "conversation_memory \<Rightarrow> (pystr \<times> message list) list \<Rightarrow> conversation_memory" where
  "append_calls mem calls = foldl (\<lambda>m c. append_messages m (fst c) (snd c)) mem calls"

text \<open>The messages a run of calls delivers to one identifier, in order.\<close>

definition delivered :: "pystr \<Rightarrow> (pystr \<times> message list) list \<Rightarrow> message list" where
  "delivered cid calls = concat (map snd (filter (\<lambda>c. fst c = cid) calls))"

text \<open>Python's \<open>xs[-n:]\<close> for \<open>n > 0\<close>: the last \<open>n\<close> elements, all of them when there are fewer.\<close>

definition last_n :: "nat \<Rightarrow> 'a list \<Rightarrow> 'a list" where
  "last_n n xs = drop (length xs - n) xs"

section \<open>LangChain messages\<close>

text \<open>
  The values a tool-call argument mapping carries: \<open>None\<close>, a bool, an int or a
  string.
\<close>

datatype pyval = PNone | PBool bool | PInt int | PStr pystr

type_synonym args = "pystr \<rightharpoonup> pyval"

text \<open>A tool invocation request: \<open>call.get("name")\<close>, \<open>call.get("args")\<close>, \<open>call.get("id")\<close>.\<close>

record tool_call =
  call_name :: pystr
  call_args :: args
  call_id :: "pystr option"

text \<open>
  The content of a model response is a string or a list of chunks, each a string or a
  dictionary (its string-valued entries).
\<close>

datatype chunk = ChunkStr pystr | ChunkDict "pystr \<rightharpoonup> pystr"

datatype msg_content = ContentStr pystr | ContentList "chunk list"

record ai_message =
  ai_content :: msg_content
  tool_calls :: "tool_call list"

text \<open>\<open>ToolMessage content name tool_call_id\<close>\<close>

datatype base_message =
    SystemMessage pystr
  | HumanMessage pystr
  | AIMessage ai_message
  | ToolMessage pystr pystr "pystr option"

text \<open>
  Exceptions, each with its \<open>str(exc)\<close>: \<open>RuntimeError\<close> (which
  \<open>chat_endpoint\<close> tells apart), pydantic's \<open>ValidationError\<close>, and any other
  \<open>Exception\<close>.
\<close>

datatype exn = RuntimeError pystr | ValidationError pystr | OtherException pystr

fun exn_str :: "exn \<Rightarrow> pystr" where
  "exn_str (RuntimeError m) = m"
| "exn_str (ValidationError m) = m"
| "exn_str (OtherException m) = m"

section \<open>The chat service (\<open>app/services/llm.py\<close>)\<close>

text \<open>
  The collaborators of a \<open>GeminiChatService\<close>: the model client with and without
  the tool schemas bound, and the tools by name. Each call takes the state of the world
  outside the process and returns the new one with its result or the exception raised.
\<close>

type_synonym 'w tool = "args \<Rightarrow> 'w \<Rightarrow> (exn + pystr) \<times> 'w"

record 'w service =
  llm_invoke :: "base_message list \<Rightarrow> 'w \<Rightarrow> (exn + ai_message) \<times> 'w"
  llm_with_tools_invoke :: "base_message list \<Rightarrow> 'w \<Rightarrow> (exn + ai_message) \<times> 'w"
  tool_map :: "pystr \<rightharpoonup> 'w tool"

definition SYSTEM_PROMPT :: pystr where
  "SYSTEM_PROMPT = ascii (
     ''You are MedAssist, a hospital front desk assistant. '' @
     ''Greet patients warmly, gather intent, and answer questions using only the '' @
     ''provided information. Confirm doctor, patient, and timing before booking. '' @
     ''If details are missing, ask focused follow-up questions. '' @
     ''Always verify doctor availability with the search tool before promising an appointment. '' @
     ''If the search tool does not return the requested doctor, explain that they are unavailable '' @
     ''and offer alternatives such as searching other specialists. Respond in the same language '' @
     ''the patient uses, and when the patient writes in Hindi or Marathi, answer using Devanagari script. '' @
     ''Keep responses concise, empathetic, and professional.'')"

definition MAX_HISTORY_MESSAGES :: nat where
  "MAX_HISTORY_MESSAGES = 5"

definition DEFAULT_CONVERSATION_ID :: pystr where
  "DEFAULT_CONVERSATION_ID = ascii ''_default_session''"

definition max_tool_iterations :: nat where
  "max_tool_iterations = 3"

text \<open>\<open>_map_history\<close>: external system messages are ignored.\<close>

fun map_history :: "message list \<Rightarrow> base_message list" where
  "map_history [] = []"
| "map_history (item # rest) =
     (if role item = User then HumanMessage (content item) # map_history rest
      else if role item = Assistant then
        AIMessage \<lparr>ai_content = ContentStr (content item), tool_calls = []\<rparr> # map_history rest
      else map_history rest)"

text \<open>\<open>"\n".join(parts)\<close>\<close>

fun join_lines :: "pystr list \<Rightarrow> pystr" where
  "join_lines [] = []"
| "join_lines [p] = p"
| "join_lines (p # q # ps) = p @ [10] @ join_lines (q # ps)"

text \<open>The parts \<open>_stringify_content\<close> collects from a list of chunks.\<close>

fun text_parts :: "chunk list \<Rightarrow> pystr list" where
  "text_parts [] = []"
| "text_parts (ChunkDict d # cs) =
     (case d (ascii ''text'') of
        Some t \<Rightarrow>
          (if d (ascii ''type'') = Some (ascii ''text'') \<and> t \<noteq> []
           then t # text_parts cs else text_parts cs)
      | None \<Rightarrow> text_parts cs)"
| "text_parts (ChunkStr s # cs) = s # text_parts cs"

definition stringify_content :: "ai_message \<Rightarrow> pystr" where
  "stringify_content message =
     (case ai_content message of
        ContentStr s \<Rightarrow> s
      | ContentList cs \<Rightarrow> join_lines (text_parts cs))"

text \<open>\<open>_call_tool\<close>: a tool's exception becomes the text of the tool message.\<close>

definition call_tool ::
  "'w service \<Rightarrow> pystr \<Rightarrow> args \<Rightarrow> pystr option \<Rightarrow> 'w \<Rightarrow> base_message \<times> 'w" where
  "call_tool svc tool_name tool_args tool_call_id w =
     (case tool_map svc tool_name of
        None \<Rightarrow>
          (ToolMessage
             (ascii ''Requested tool '' @ [39] @ tool_name @ [39] @ ascii '' is not available.'')
             tool_name tool_call_id, w)
      | Some tool \<Rightarrow>
          (case tool tool_args w of
             (Inr result, w') \<Rightarrow> (ToolMessage result tool_name tool_call_id, w')
           | (Inl exc, w') \<Rightarrow>
               (ToolMessage
                  (ascii ''Tool '' @ [39] @ tool_name @ [39] @ ascii '' failed: '' @ exn_str exc)
                  tool_name tool_call_id, w')))"

text \<open>The inner loop of \<open>generate_reply\<close>: \<open>for call in tool_calls\<close>.\<close>

fun run_tool_calls ::
  "'w service \<Rightarrow> tool_call list \<Rightarrow> base_message list \<Rightarrow> 'w \<Rightarrow> base_message list \<times> 'w" where
  "run_tool_calls svc [] conversation w = (conversation, w)"
| "run_tool_calls svc (call # calls) conversation w =
     (case call_tool svc (call_name call) (call_args call) (call_id call) w of
        (tool_message, w') \<Rightarrow> run_tool_calls svc calls (conversation @ [tool_message]) w')"

text \<open>
  A record of one model call, kept beside the run so that the calls can be counted: whether
  the tool schemas were attached, the conversation sent, and what came back.
\<close>

datatype model_call = ModelCall (with_tools: bool) (prompt: "base_message list")
  (outcome: "exn + ai_message")

text \<open>
  The outer loop of \<open>generate_reply\<close>, \<open>for _ in range(n)\<close>: it returns the reply
  text if the model gave one (\<open>None\<close> when the iterations ran out), the conversation,
  the world and the model calls made; an exception of the model client leaves the loop.
\<close>

fun tool_iterations ::
  "'w service \<Rightarrow> nat \<Rightarrow> base_message list \<Rightarrow> 'w \<Rightarrow>
     (exn + pystr option \<times> base_message list) \<times> 'w \<times> model_call list" where
  "tool_iterations svc 0 conversation w = (Inr (None, conversation), w, [])"
| "tool_iterations svc (Suc n) conversation w =
     (case llm_with_tools_invoke svc conversation w of
        (Inl exc, w') \<Rightarrow> (Inl exc, w', [ModelCall True conversation (Inl exc)])
      | (Inr response, w') \<Rightarrow>
          (if tool_calls response = [] then
             (Inr (Some (stringify_content response), conversation @ [AIMessage response]), w',
              [ModelCall True conversation (Inr response)])
           else
             (case run_tool_calls svc (tool_calls response)
                     (conversation @ [AIMessage response]) w' of
                (conversation', w'') \<Rightarrow>
                  (case tool_iterations svc n conversation' w'' of
                     (r, w''', calls) \<Rightarrow>
                       (r, w''', ModelCall True conversation (Inr response) # calls)))))"

text \<open>
  Python's truth test on an \<open>Optional[str]\<close>, as \<open>if effective_id:\<close> makes
  it: the string when it is neither \<open>None\<close> nor empty.
\<close>

fun truthy :: "pystr option \<Rightarrow> pystr option" where
  "truthy None = None"
| "truthy (Some s) = (if s = [] then None else Some s)"

text \<open>
  The block \<open>if reply_text is None:\<close> of \<open>generate_reply\<close>: one call of the
  model client that has no tool schemas bound.
\<close>

definition final_reply ::
  "'w service \<Rightarrow> pystr option \<Rightarrow> base_message list \<Rightarrow> 'w \<Rightarrow>
     (exn + pystr) \<times> 'w \<times> model_call list" where
  "final_reply svc reply_text conversation w =
     (case reply_text of
        Some text \<Rightarrow> (Inr text, w, [])
      | None \<Rightarrow>
          (case llm_invoke svc conversation w of
             (Inl exc, w') \<Rightarrow> (Inl exc, w', [ModelCall False conversation (Inl exc)])
           | (Inr final_response, w') \<Rightarrow>
               (Inr (stringify_content final_response), w',
                [ModelCall False conversation (Inr final_response)])))"

text \<open>
  The blocks of \<open>generate_reply\<close>, in the order of the source. First the
  conversation identity: the caller's identifier when it is given and not empty, the
  default session when there is no inline history either, and none otherwise.
\<close>

definition effective_conversation_id :: "pystr option \<Rightarrow> message list \<Rightarrow> pystr option" where
  "effective_conversation_id conversation_id history =
     (case truthy conversation_id of
        Some cid \<Rightarrow> Some cid
      | None \<Rightarrow> if history = [] then Some DEFAULT_CONVERSATION_ID else None)"

text \<open>
  Then the source of the history: with an identifier, the stored window (after the inline
  history, if any, has replaced it); without one, the inline history.
\<close>

definition history_source ::
  "conversation_memory \<Rightarrow> pystr option \<Rightarrow> message list \<Rightarrow> conversation_memory \<times> message list" where
  "history_source mem effective_id history =
     (case truthy effective_id of
        Some eid \<Rightarrow>
          (let mem1 = (if history \<noteq> [] then set_history mem eid history else mem)
           in (mem1, get_history mem1 eid))
      | None \<Rightarrow> (mem, history))"

text \<open>The conversation sent to the model: system prompt, trimmed history, new message.\<close>

definition build_conversation :: "message list \<Rightarrow> pystr \<Rightarrow> base_message list" where
  "build_conversation history user_message =
     (let trimmed_history = last_n MAX_HISTORY_MESSAGES history;
          lc_history = map_history trimmed_history
      in [SystemMessage SYSTEM_PROMPT] @ lc_history @ [HumanMessage user_message])"

text \<open>The last block: with an identifier, the exchange is appended to its window.\<close>

definition persist_exchange ::
  "conversation_memory \<Rightarrow> pystr option \<Rightarrow> pystr \<Rightarrow> pystr \<Rightarrow> conversation_memory" where
  "persist_exchange mem effective_id user_message reply_text =
     (case truthy effective_id of
        Some eid \<Rightarrow>
          append_messages mem eid
            [\<lparr>role = User, content = user_message\<rparr>,
             \<lparr>role = Assistant, content = reply_text\<rparr>]
      | None \<Rightarrow> mem)"

text \<open>
  \<open>generate_reply\<close>. The result is the reply, or the exception that left the function,
  with the memory, the world and the model calls as they are at that point.
\<close>

definition generate_reply ::
  "'w service \<Rightarrow> conversation_memory \<Rightarrow> 'w \<Rightarrow> pystr \<Rightarrow> message list \<Rightarrow> pystr option \<Rightarrow>
     (exn + pystr) \<times> conversation_memory \<times> 'w \<times> model_call list" where
  "generate_reply svc mem w user_message history conversation_id =
     (let effective_id = effective_conversation_id conversation_id history
      in case history_source mem effective_id history of
        (mem1, source) \<Rightarrow>
          (case tool_iterations svc max_tool_iterations
                  (build_conversation source user_message) w of
             (Inl exc, w1, calls) \<Rightarrow> (Inl exc, mem1, w1, calls)
           | (Inr (reply_text, conversation), w1, calls) \<Rightarrow>
               (case final_reply svc reply_text conversation w1 of
                  (Inl exc, w2, final_calls) \<Rightarrow> (Inl exc, mem1, w2, calls @ final_calls)
                | (Inr text, w2, final_calls) \<Rightarrow>
                    (Inr text, persist_exchange mem1 effective_id user_message text, w2,
                     calls @ final_calls))))"

section \<open>Test doubles\<close>

text \<open>A model that asks for an unregistered tool at every call, and answers without tools.\<close>

definition lookup_call :: tool_call where
  "lookup_call = \<lparr>call_name = ascii ''lookup'', call_args = Map.empty, call_id = Some (ascii ''c1'')\<rparr>"

definition asking_service :: "unit service" where
  "asking_service =
     \<lparr>llm_invoke = (\<lambda>conversation w.
        (Inr \<lparr>ai_content = ContentStr (ascii ''done''), tool_calls = []\<rparr>, w)),
      llm_with_tools_invoke = (\<lambda>conversation w.
        (Inr \<lparr>ai_content = ContentStr [], tool_calls = [lookup_call]\<rparr>, w)),
      tool_map = Map.empty\<rparr>"

text \<open>A model that answers at once.\<close>

definition answering_service :: "unit service" where
  "answering_service =
     \<lparr>llm_invoke = (\<lambda>conversation w.
        (Inr \<lparr>ai_content = ContentStr (ascii ''done''), tool_calls = []\<rparr>, w)),
      llm_with_tools_invoke = (\<lambda>conversation w.
        (Inr \<lparr>ai_content = ContentStr (ascii ''hello''), tool_calls = []\<rparr>, w)),
      tool_map = Map.empty\<rparr>"

section \<open>Properties of the history store\<close>

lemma deque_append_maxlen [simp]: "maxlen (deque_append d x) = maxlen d"
  by (simp add: deque_append_def Let_def)

lemma deque_append_items:
  "items (deque_append d x) = last_n (maxlen d) (items d @ [x])"
  if "length (items d) \<le> maxlen d"
proof (cases "length (items d) = maxlen d")
  case True
  then show ?thesis
    by (cases "items d") (auto simp: deque_append_def Let_def last_n_def)
next
  case False
  with that have "length (items d) < maxlen d" by simp
  then show ?thesis
    by (simp add: deque_append_def Let_def last_n_def)
qed

lemma last_n_length: "length (last_n n xs) \<le> n"
  by (simp add: last_n_def)

lemma last_n_snoc: "last_n n (last_n n xs @ ys) = last_n n (xs @ ys)"
proof (cases "length xs \<le> n")
  case True
  then show ?thesis by (simp add: last_n_def)
next
  case False
  then show ?thesis by (simp add: last_n_def add.commute)
qed

lemma fold_deque_append_maxlen [simp]:
  "maxlen (fold (\<lambda>m d. deque_append d m) ms d) = maxlen d"
  by (induction ms arbitrary: d) simp_all

lemma fold_deque_append_items:
  "length (items d) \<le> maxlen d \<Longrightarrow>
   items (fold (\<lambda>m d. deque_append d m) ms d) = last_n (maxlen d) (items d @ ms)"
proof (induction ms arbitrary: d)
  case Nil
  then show ?case by (simp add: last_n_def)
next
  case (Cons m ms)
  have step: "items (deque_append d m) = last_n (maxlen d) (items d @ [m])"
    using Cons.prems by (rule deque_append_items)
  have "length (items (deque_append d m)) \<le> maxlen (deque_append d m)"
    by (simp add: step last_n_length)
  from Cons.IH [OF this] show ?case
    by (simp add: step last_n_snoc)
qed

text \<open>The invariant of the store: every window has the store's capacity and respects it.\<close>

definition store_ok :: "conversation_memory \<Rightarrow> bool" where
  "store_ok mem =
     (\<forall>cid d. store mem cid = Some d \<longrightarrow>
        maxlen d = max_messages mem \<and> length (items d) \<le> maxlen d)"

lemma store_okD:
  assumes "store_ok mem" and "store mem cid = Some d"
  shows "maxlen d = max_messages mem" and "length (items d) \<le> maxlen d"
    and "length (items d) \<le> max_messages mem"
  using assms unfolding store_ok_def by force+

lemma store_ok_init: "store_ok (ConversationMemory n)"
  by (simp add: store_ok_def ConversationMemory_def)

lemma append_messages_max [simp]:
  "max_messages (append_messages mem cid ms) = max_messages mem"
  by (simp add: append_messages_def Let_def)

lemma set_history_max [simp]:
  "max_messages (set_history mem cid ms) = max_messages mem"
  by (simp add: set_history_def Let_def)

lemma get_history_set_history:
  "get_history (set_history mem cid ms) cid' =
     (if cid' = cid then last_n (max_messages mem) ms else get_history mem cid')"
  by (simp add: get_history_def set_history_def Let_def deque_new_def
      fold_deque_append_items)

lemma get_history_append_messages:
  assumes "store_ok mem"
  shows "get_history (append_messages mem cid ms) cid' =
     (if cid' = cid then last_n (max_messages mem) (get_history mem cid @ ms)
      else get_history mem cid')"
proof (cases "store mem cid")
  case None
  then show ?thesis
    by (simp add: get_history_def append_messages_def Let_def deque_new_def
        fold_deque_append_items)
next
  case (Some d)
  with assms have d: "maxlen d = max_messages mem" "length (items d) \<le> maxlen d"
    by (simp_all add: store_okD)
  from Some d show ?thesis
    by (simp add: get_history_def append_messages_def Let_def fold_deque_append_items)
qed

lemma store_ok_update:
  assumes "store_ok mem" and "maxlen d = max_messages mem" and "length (items d) \<le> maxlen d"
  shows "store_ok (mem\<lparr>store := (store mem)(cid \<mapsto> d)\<rparr>)"
  unfolding store_ok_def
proof (intro allI impI)
  fix cid' d'
  assume s: "store (mem\<lparr>store := (store mem)(cid \<mapsto> d)\<rparr>) cid' = Some d'"
  show "maxlen d' = max_messages (mem\<lparr>store := (store mem)(cid \<mapsto> d)\<rparr>) \<and>
        length (items d') \<le> maxlen d'"
  proof (cases "cid' = cid")
    case True
    with s assms show ?thesis by simp
  next
    case False
    with s have "store mem cid' = Some d'" by simp
    with assms(1) show ?thesis by (simp add: store_okD)
  qed
qed

lemma store_ok_append_messages:
  assumes "store_ok mem"
  shows "store_ok (append_messages mem cid ms)"
proof -
  define h where "h = (case store mem cid of
      None \<Rightarrow> deque_new (max_messages mem) | Some d \<Rightarrow> d)"
  have h: "maxlen h = max_messages mem" "length (items h) \<le> maxlen h"
    using assms by (auto simp: h_def store_okD deque_new_def split: option.splits)
  have "length (items (fold (\<lambda>m d. deque_append d m) ms h)) \<le> maxlen h"
    using h(2) by (simp add: fold_deque_append_items last_n_length)
  with h(1) show ?thesis
    unfolding append_messages_def Let_def h_def [symmetric]
    by (intro store_ok_update [OF assms]) simp_all
qed

lemma store_ok_set_history: "store_ok mem \<Longrightarrow> store_ok (set_history mem cid ms)"
  unfolding set_history_def Let_def
  by (intro store_ok_update)
    (simp_all add: deque_new_def fold_deque_append_items last_n_length)

lemma append_calls_max [simp]: "max_messages (append_calls mem calls) = max_messages mem"
  by (induction calls arbitrary: mem) (simp_all add: append_calls_def)

lemma get_history_append_calls:
  "store_ok mem \<Longrightarrow>
   get_history (append_calls mem calls) cid =
     last_n (max_messages mem) (get_history mem cid @ delivered cid calls)"
proof (induction calls arbitrary: mem)
  case Nil
  then show ?case
    by (cases "store mem cid")
      (simp_all add: append_calls_def delivered_def get_history_def store_okD last_n_def)
next
  case (Cons c calls)
  let ?mem = "append_messages mem (fst c) (snd c)"
  have ok: "store_ok ?mem"
    using Cons.prems by (rule store_ok_append_messages)
  have unfold: "append_calls mem (c # calls) = append_calls ?mem calls"
    by (simp add: append_calls_def)
  show ?case
    using Cons.IH [OF ok] Cons.prems
    by (simp add: unfold get_history_append_messages delivered_def last_n_snoc)
qed

text \<open>
  C2. Starting from the store the service constructs (capacity 5), after any run of
  \<open>append_messages\<close> calls (to this and to other identifiers) that delivers \<open>N\<close>
  messages to an identifier, \<open>get_history\<close> on it returns the last \<open>min N 5\<close> of
  them, in the order they were delivered.
\<close>

theorem append_then_get_last_five:
  "get_history (append_calls (ConversationMemory 5) calls) cid =
     drop (length (delivered cid calls) - min (length (delivered cid calls)) 5)
       (delivered cid calls)"
proof -
  have "get_history (ConversationMemory 5) cid = []"
    by (simp add: get_history_def ConversationMemory_def)
  moreover have "max_messages (ConversationMemory 5) = 5"
    by (simp add: ConversationMemory_def)
  ultimately have "get_history (append_calls (ConversationMemory 5) calls) cid =
      last_n 5 (delivered cid calls)"
    using get_history_append_calls [OF store_ok_init, of 5 calls cid] by simp
  moreover have "length xs - min (length xs) 5 = length xs - 5" for xs :: "message list"
    by simp
  ultimately show ?thesis
    by (simp add: last_n_def)
qed

text \<open>
  C8. On a store of capacity 5, \<open>set_history\<close> followed by \<open>get_history\<close> on the
  same identifier returns the supplied turns when there are at most 5, and the last 5
  of them otherwise.
\<close>

theorem set_then_get_last_five:
  assumes "max_messages mem = 5"
  shows "get_history (set_history mem cid turns) cid =
     (if length turns \<le> 5 then turns else drop (length turns - 5) turns)"
  using assms by (simp add: get_history_set_history last_n_def)

theorem set_then_get_last_five_witness:
  "max_messages (ConversationMemory 5) = 5 \<and>
   get_history (set_history (ConversationMemory 5) (ascii ''c'')
      (map (\<lambda>n. \<lparr>role = User, content = [n]\<rparr>) [1, 2, 3, 4, 5, 6, 7])) (ascii ''c'') =
     map (\<lambda>n. \<lparr>role = User, content = [n]\<rparr>) [3, 4, 5, 6, 7]"
proof -
  have h: "max_messages (ConversationMemory 5) = 5"
    by (simp add: ConversationMemory_def)
  from set_then_get_last_five [OF h, of "ascii ''c''"
      "map (\<lambda>n. \<lparr>role = User, content = [n]\<rparr>) [1, 2, 3, 4, 5, 6, 7]"]
  show ?thesis using h by simp
qed

section \<open>Properties of the orchestration loop\<close>

lemma ascii_Nil [simp]: "ascii [] = []"
  by (simp add: ascii_def)

lemma ascii_eq_iff [simp]: "ascii s = ascii t \<longleftrightarrow> s = t"
  by (simp add: ascii_def inj_map_eq_map [OF inj_of_char])

lemma ascii_eq_Nil_iff [simp]: "ascii s = [] \<longleftrightarrow> s = []"
  by (simp add: ascii_def)

definition requests_tools :: "exn + ai_message \<Rightarrow> bool" where
  "requests_tools out = (case out of Inl exc \<Rightarrow> False | Inr response \<Rightarrow> tool_calls response \<noteq> [])"

text \<open>The number of model calls, made with the tools attached, that came back with tool requests.\<close>

definition tool_rounds :: "model_call list \<Rightarrow> nat" where
  "tool_rounds calls = length (filter (\<lambda>e. with_tools e \<and> requests_tools (outcome e)) calls)"

lemma tool_rounds_simps [simp]:
  "tool_rounds [] = 0"
  "tool_rounds (ModelCall t p out # calls) =
     (if t \<and> requests_tools out then Suc (tool_rounds calls) else tool_rounds calls)"
  "tool_rounds (calls @ calls') = tool_rounds calls + tool_rounds calls'"
  by (simp_all add: tool_rounds_def)

lemma tool_rounds_le: "tool_rounds calls \<le> length calls"
  by (simp add: tool_rounds_def)

lemma tool_iterations_calls:
  "tool_iterations svc n conversation w = (r, w', calls) \<Longrightarrow>
     list_all with_tools calls \<and> length calls \<le> n \<and>
     (case r of
        Inr (None, c) \<Rightarrow> tool_rounds calls = n \<and> length calls = n
      | _ \<Rightarrow> tool_rounds calls < n)"
proof (induction n arbitrary: conversation w r w' calls)
  case 0
  then show ?case by auto
next
  case (Suc n)
  obtain out w1 where llm: "llm_with_tools_invoke svc conversation w = (out, w1)"
    by (cases "llm_with_tools_invoke svc conversation w")
  show ?case
  proof (cases out)
    case (Inl exc)
    with Suc.prems llm show ?thesis
      by (auto simp: requests_tools_def)
  next
    case (Inr response)
    show ?thesis
    proof (cases "tool_calls response = []")
      case True
      with Suc.prems llm Inr show ?thesis
        by (auto simp: requests_tools_def)
    next
      case False
      obtain c2 w2 where run:
        "run_tool_calls svc (tool_calls response) (conversation @ [AIMessage response]) w1 = (c2, w2)"
        by (cases "run_tool_calls svc (tool_calls response) (conversation @ [AIMessage response]) w1")
      obtain r3 w3 calls3 where rec: "tool_iterations svc n c2 w2 = (r3, w3, calls3)"
        by (cases "tool_iterations svc n c2 w2")
      from Suc.prems llm Inr False run rec
      have eq: "r = r3" "calls = ModelCall True conversation (Inr response) # calls3"
        by simp_all
      from Suc.IH [OF rec] False show ?thesis
        by (auto simp: eq requests_tools_def split: sum.splits option.splits prod.splits)
    qed
  qed
qed

lemma final_reply_calls:
  "final_reply svc reply_text c w = (res, w', calls) \<Longrightarrow>
     (case reply_text of
        Some text \<Rightarrow> calls = [] \<and> res = Inr text \<and> w' = w
      | None \<Rightarrow> \<exists>final. llm_invoke svc c w = (final, w') \<and> calls = [ModelCall False c final] \<and>
          res = (case final of Inl exc \<Rightarrow> Inl exc
                 | Inr final_response \<Rightarrow> Inr (stringify_content final_response)))"
  by (auto simp: final_reply_def split: option.splits prod.splits sum.splits)

text \<open>What a run of \<open>generate_reply\<close> is made of: the loop, then the final reply.\<close>

lemma generate_reply_run:
  assumes "generate_reply svc mem w user_message history conversation_id = (result, mem', w', trace)"
  shows "\<exists>conversation r w1 calls.
      tool_iterations svc max_tool_iterations conversation w = (r, w1, calls) \<and>
      (case r of
         Inl exc \<Rightarrow> result = Inl exc \<and> trace = calls \<and> w' = w1
       | Inr (reply_text, c) \<Rightarrow>
           (\<exists>final_calls. final_reply svc reply_text c w1 = (result, w', final_calls) \<and>
              trace = calls @ final_calls))"
proof -
  define eid where "eid = effective_conversation_id conversation_id history"
  obtain mem1 source where hs: "history_source mem eid history = (mem1, source)"
    by (cases "history_source mem eid history")
  define conversation where "conversation = build_conversation source user_message"
  obtain r w1 calls where loop:
    "tool_iterations svc max_tool_iterations conversation w = (r, w1, calls)"
    by (cases "tool_iterations svc max_tool_iterations conversation w")
  have gr: "generate_reply svc mem w user_message history conversation_id =
     (case r of
        Inl exc \<Rightarrow> (Inl exc, mem1, w1, calls)
      | Inr (reply_text, conversation1) \<Rightarrow>
             (case final_reply svc reply_text conversation1 w1 of
                (Inl exc, w2, final_calls) \<Rightarrow> (Inl exc, mem1, w2, calls @ final_calls)
              | (Inr text, w2, final_calls) \<Rightarrow>
                  (Inr text, persist_exchange mem1 eid user_message text, w2,
                   calls @ final_calls)))"
    unfolding generate_reply_def Let_def eid_def [symmetric]
    by (simp add: hs loop [unfolded conversation_def] split: sum.splits prod.splits)
  have "case r of
         Inl exc \<Rightarrow> result = Inl exc \<and> trace = calls \<and> w' = w1
       | Inr (reply_text, c) \<Rightarrow>
           (\<exists>final_calls. final_reply svc reply_text c w1 = (result, w', final_calls) \<and>
              trace = calls @ final_calls)"
    using assms unfolding gr
    by (auto split: sum.splits prod.splits)
  with loop show ?thesis by blast
qed

text \<open>
  C1. In every run of \<open>generate_reply\<close> in which three model calls made with the tools
  attached came back with tool requests, the model calls are those three followed by
  exactly one call without tools, on the conversation the loop left, and the run returns
  the text of that call's response (or leaves with the exception that call raised).
\<close>

theorem exhausted_iterations_one_final_call:
  assumes "generate_reply svc mem w user_message history conversation_id = (result, mem', w', trace)"
    and "tool_rounds trace = 3"
  shows "\<exists>conversation final w2.
           trace = take 3 trace @ [ModelCall False conversation final] \<and>
           length trace = 4 \<and>
           list_all with_tools (take 3 trace) \<and>
           llm_invoke svc conversation w2 = (final, w') \<and>
           result = (case final of
                       Inl exc \<Rightarrow> Inl exc
                     | Inr final_response \<Rightarrow> Inr (stringify_content final_response))"
proof -
  from generate_reply_run [OF assms(1)] obtain conversation r w1 calls where
    loop: "tool_iterations svc max_tool_iterations conversation w = (r, w1, calls)"
    and run: "case r of
         Inl exc \<Rightarrow> result = Inl exc \<and> trace = calls \<and> w' = w1
       | Inr (reply_text, c) \<Rightarrow>
           (\<exists>final_calls. final_reply svc reply_text c w1 = (result, w', final_calls) \<and>
              trace = calls @ final_calls)"
    by blast
  note inv = tool_iterations_calls [OF loop]
  show ?thesis
  proof (cases r)
    case (Inl exc)
    with inv run assms(2) show ?thesis
      by (simp add: max_tool_iterations_def)
  next
    case (Inr rc)
    obtain reply_text c where rc: "rc = (reply_text, c)" by (cases rc)
    from run Inr rc obtain final_calls where
      fin: "final_reply svc reply_text c w1 = (result, w', final_calls)"
      and trace: "trace = calls @ final_calls"
      by auto
    show ?thesis
    proof (cases reply_text)
      case (Some reply)
      with final_reply_calls [OF fin] have "final_calls = []" by simp
      with inv Inr rc Some trace assms(2) show ?thesis
        by (simp add: max_tool_iterations_def)
    next
      case None
      with final_reply_calls [OF fin] obtain final where
        final: "llm_invoke svc c w1 = (final, w')" "final_calls = [ModelCall False c final]"
          "result = (case final of Inl exc \<Rightarrow> Inl exc
                 | Inr final_response \<Rightarrow> Inr (stringify_content final_response))"
        by auto
      from inv Inr rc None have "length calls = 3" "list_all with_tools calls"
        by (simp_all add: max_tool_iterations_def)
      with final trace show ?thesis
        by (intro exI [of _ c] exI [of _ final] exI [of _ w1]) simp
    qed
  qed
qed

lemmas run_defs =
  generate_reply_def effective_conversation_id_def history_source_def build_conversation_def
  persist_exchange_def final_reply_def call_tool_def stringify_content_def
  max_tool_iterations_def MAX_HISTORY_MESSAGES_def DEFAULT_CONVERSATION_ID_def
  get_history_def set_history_def append_messages_def ConversationMemory_def
  deque_new_def deque_append_def last_n_def Let_def

theorem exhausted_iterations_one_final_call_witness:
  "tool_rounds (snd (snd (snd
      (generate_reply asking_service (ConversationMemory 5) () (ascii ''hi'') [] None)))) = 3 \<and>
   fst (generate_reply asking_service (ConversationMemory 5) () (ascii ''hi'') [] None) =
     Inr (ascii ''done'')"
proof -
  obtain result mem' w' trace where
    run: "generate_reply asking_service (ConversationMemory 5) () (ascii ''hi'') [] None =
            (result, mem', w', trace)"
    by (cases "generate_reply asking_service (ConversationMemory 5) () (ascii ''hi'') [] None")
  have rounds: "tool_rounds trace = 3"
    using run
    by (auto simp: run_defs asking_service_def eval_nat_numeral requests_tools_def)
  from exhausted_iterations_one_final_call [OF run rounds]
  have "result = Inr (ascii ''done'')"
    by (auto simp: asking_service_def stringify_content_def)
  with run rounds show ?thesis by simp
qed

text \<open>
  C7. A call of \<open>generate_reply\<close> with no conversation identifier and a non-empty
  inline history returns the memory it was given, whatever the model and the tools do.
\<close>

theorem ephemeral_request_leaves_store:
  assumes "history \<noteq> []"
  shows "fst (snd (generate_reply svc mem w user_message history None)) = mem"
  using assms
  by (simp add: generate_reply_def effective_conversation_id_def history_source_def
      persist_exchange_def split: prod.splits sum.splits)

theorem ephemeral_request_leaves_store_witness:
  "[\<lparr>role = User, content = ascii ''hi''\<rparr>] \<noteq> [] \<and>
   fst (snd (generate_reply answering_service (ConversationMemory 5) () (ascii ''again'')
      [\<lparr>role = User, content = ascii ''hi''\<rparr>] None)) = ConversationMemory 5 \<and>
   fst (generate_reply answering_service (ConversationMemory 5) () (ascii ''again'')
      [\<lparr>role = User, content = ascii ''hi''\<rparr>] None) = Inr (ascii ''hello'')"
proof -
  have h: "[\<lparr>role = User, content = ascii ''hi''\<rparr>] \<noteq> []" by simp
  have "fst (generate_reply answering_service (ConversationMemory 5) () (ascii ''again'')
      [\<lparr>role = User, content = ascii ''hi''\<rparr>] None) = Inr (ascii ''hello'')"
    by (simp add: run_defs answering_service_def eval_nat_numeral)
  with ephemeral_request_leaves_store [OF h, of answering_service "ConversationMemory 5" "()"
      "ascii ''again''"]
  show ?thesis by simp
qed

text \<open>
  C9. \<open>generate_reply\<close> with the empty string as conversation identifier does what
  it does with no identifier: with an empty history a returned exchange is appended under
  \<open>_default_session\<close>, and with a non-empty inline history the memory is returned as
  it was given.
\<close>

theorem empty_identifier_is_absent:
  "generate_reply svc mem w user_message history (Some []) =
     generate_reply svc mem w user_message history None \<and>
   (\<forall>reply mem' w' trace.
      generate_reply svc mem w user_message [] (Some []) = (Inr reply, mem', w', trace) \<longrightarrow>
        mem' = append_messages mem (ascii ''_default_session'')
                 [\<lparr>role = User, content = user_message\<rparr>,
                  \<lparr>role = Assistant, content = reply\<rparr>]) \<and>
   (history \<noteq> [] \<longrightarrow>
      fst (snd (generate_reply svc mem w user_message history (Some []))) = mem)"
proof (intro conjI allI impI)
  show "generate_reply svc mem w user_message history (Some []) =
     generate_reply svc mem w user_message history None"
    by (simp add: generate_reply_def effective_conversation_id_def)
next
  fix reply mem' w' trace
  assume "generate_reply svc mem w user_message [] (Some []) = (Inr reply, mem', w', trace)"
  then show "mem' = append_messages mem (ascii ''_default_session'')
                 [\<lparr>role = User, content = user_message\<rparr>,
                  \<lparr>role = Assistant, content = reply\<rparr>]"
    by (auto simp: generate_reply_def effective_conversation_id_def history_source_def
        persist_exchange_def DEFAULT_CONVERSATION_ID_def split: prod.splits sum.splits)
next
  assume "history \<noteq> []"
  then show "fst (snd (generate_reply svc mem w user_message history (Some []))) = mem"
    by (simp add: generate_reply_def effective_conversation_id_def history_source_def
        persist_exchange_def split: prod.splits sum.splits)
qed

theorem empty_identifier_is_absent_witness:
  "get_history (fst (snd (generate_reply answering_service (ConversationMemory 5) ()
      (ascii ''hi'') [] (Some [])))) (ascii ''_default_session'') =
     [\<lparr>role = User, content = ascii ''hi''\<rparr>,
      \<lparr>role = Assistant, content = ascii ''hello''\<rparr>] \<and>
   fst (snd (generate_reply answering_service (ConversationMemory 5) ()
      (ascii ''again'') [\<lparr>role = User, content = ascii ''hi''\<rparr>] (Some []))) =
     ConversationMemory 5"
proof -
  obtain mem' trace where
    run: "generate_reply answering_service (ConversationMemory 5) () (ascii ''hi'') [] (Some []) =
            (Inr (ascii ''hello''), mem', (), trace)"
    by (simp add: run_defs answering_service_def eval_nat_numeral)
  from empty_identifier_is_absent [of answering_service "ConversationMemory 5" "()"
      "ascii ''hi''" "[]"] run
  have "mem' = append_messages (ConversationMemory 5) (ascii ''_default_session'')
                 [\<lparr>role = User, content = ascii ''hi''\<rparr>,
                  \<lparr>role = Assistant, content = ascii ''hello''\<rparr>]"
    by blast
  then have stored: "get_history mem' (ascii ''_default_session'') =
     [\<lparr>role = User, content = ascii ''hi''\<rparr>,
      \<lparr>role = Assistant, content = ascii ''hello''\<rparr>]"
    by (simp add: get_history_def append_messages_def ConversationMemory_def deque_new_def
        deque_append_def Let_def)
  from empty_identifier_is_absent [of answering_service "ConversationMemory 5" "()"
      "ascii ''again''" "[\<lparr>role = User, content = ascii ''hi''\<rparr>]",
      THEN conjunct2, THEN conjunct2]
  have "fst (snd (generate_reply answering_service (ConversationMemory 5) ()
      (ascii ''again'') [\<lparr>role = User, content = ascii ''hi''\<rparr>] (Some []))) =
     ConversationMemory 5"
    by simp
  with stored run show ?thesis by simp
qed

section \<open>Dispatch of an unregistered tool\<close>

text \<open>The tool message \<open>_call_tool\<close> builds when the name is not in the tool map.\<close>

definition unavailable :: "tool_call \<Rightarrow> base_message" where
  "unavailable call =
     ToolMessage
       (ascii ''Requested tool '' @ [39] @ call_name call @ [39] @ ascii '' is not available.'')
       (call_name call) (call_id call)"

lemma call_tool_unregistered:
  "tool_map svc (call_name call) = None \<Longrightarrow>
   call_tool svc (call_name call) (call_args call) (call_id call) w = (unavailable call, w)"
  by (simp add: call_tool_def unavailable_def)

text \<open>
  \<open>follows svc p response p'\<close>: the conversation \<open>p'\<close> is \<open>p\<close>, then the response,
  then one tool message for each of its requests, in their order, and the message for a
  request of an unregistered tool is the one above.
\<close>

definition follows ::
  "'w service \<Rightarrow> base_message list \<Rightarrow> ai_message \<Rightarrow> base_message list \<Rightarrow> bool" where
  "follows svc p response p' =
     (length p' = length p + 1 + length (tool_calls response) \<and>
      take (length p + 1) p' = p @ [AIMessage response] \<and>
      (\<forall>k < length (tool_calls response).
         tool_map svc (call_name (tool_calls response ! k)) = None \<longrightarrow>
           p' ! (length p + 1 + k) = unavailable (tool_calls response ! k)))"

lemma run_tool_calls_appends:
  "run_tool_calls svc calls conversation w = (conversation', w') \<Longrightarrow>
     length conversation' = length conversation + length calls \<and>
     take (length conversation) conversation' = conversation \<and>
     (\<forall>k < length calls.
        tool_map svc (call_name (calls ! k)) = None \<longrightarrow>
          conversation' ! (length conversation + k) = unavailable (calls ! k))"
proof (induction calls arbitrary: conversation w)
  case Nil
  then show ?case by simp
next
  case (Cons call calls)
  obtain tm w1 where
    tm: "call_tool svc (call_name call) (call_args call) (call_id call) w = (tm, w1)"
    by (cases "call_tool svc (call_name call) (call_args call) (call_id call) w")
  with Cons.prems have rest:
    "run_tool_calls svc calls (conversation @ [tm]) w1 = (conversation', w')"
    by simp
  note ih = Cons.IH [OF rest]
  let ?n = "length conversation"
  from ih have len: "length conversation' = ?n + length (call # calls)"
    by simp
  from ih have pre: "take (Suc ?n) conversation' = conversation @ [tm]"
    by simp
  have "take ?n (take (Suc ?n) conversation') = take ?n conversation'"
    by (simp add: min_def)
  with pre have start: "take ?n conversation' = conversation"
    by simp
  have "take (Suc ?n) conversation' ! ?n = conversation' ! ?n"
    by simp
  with pre have at: "conversation' ! ?n = tm"
    by simp
  have "conversation' ! (?n + k) = unavailable ((call # calls) ! k)"
    if k: "k < length (call # calls)"
      and un: "tool_map svc (call_name ((call # calls) ! k)) = None" for k
  proof (cases k)
    case 0
    with un have "tool_map svc (call_name call) = None" by simp
    from call_tool_unregistered [OF this, of w] tm at 0 show ?thesis by simp
  next
    case (Suc j)
    with k un ih show ?thesis by simp
  qed
  with len start show ?case by blast
qed

lemma run_tool_calls_follows:
  "run_tool_calls svc (tool_calls response) (p @ [AIMessage response]) w = (p', w') \<Longrightarrow>
   follows svc p response p'"
  using run_tool_calls_appends [of svc "tool_calls response" "p @ [AIMessage response]" w p' w']
  by (simp add: follows_def)

lemma tool_iterations_first:
  "tool_iterations svc n conversation w = (r, w', calls) \<Longrightarrow>
     (case calls of
        [] \<Rightarrow> r = Inr (None, conversation)
      | e # es \<Rightarrow> prompt e = conversation)"
  by (cases n) (auto split: prod.splits sum.splits if_splits)

text \<open>
  In the loop, a response with tool requests is followed by another model call, or by the
  end of the iterations, on the conversation extended with the tool messages.
\<close>

lemma tool_iterations_chain:
  "tool_iterations svc n conversation w = (r, w', calls) \<Longrightarrow>
   i < length calls \<Longrightarrow> calls ! i = ModelCall t p (Inr response) \<Longrightarrow>
   tool_calls response \<noteq> [] \<Longrightarrow>
     (if Suc i < length calls then follows svc p response (prompt (calls ! Suc i))
      else \<exists>c. r = Inr (None, c) \<and> follows svc p response c)"
proof (induction n arbitrary: conversation w r w' calls i)
  case 0
  then show ?case by simp
next
  case (Suc n)
  obtain out w1 where llm: "llm_with_tools_invoke svc conversation w = (out, w1)"
    by (cases "llm_with_tools_invoke svc conversation w")
  show ?case
  proof (cases out)
    case (Inl exc)
    with Suc.prems llm show ?thesis by auto
  next
    case (Inr resp)
    show ?thesis
    proof (cases "tool_calls resp = []")
      case True
      with Suc.prems llm Inr show ?thesis by auto
    next
      case False
      obtain c2 w2 where run:
        "run_tool_calls svc (tool_calls resp) (conversation @ [AIMessage resp]) w1 = (c2, w2)"
        by (cases "run_tool_calls svc (tool_calls resp) (conversation @ [AIMessage resp]) w1")
      obtain r3 w3 calls3 where rec: "tool_iterations svc n c2 w2 = (r3, w3, calls3)"
        by (cases "tool_iterations svc n c2 w2")
      from Suc.prems(1) llm Inr False run rec
      have eq: "r = r3" "calls = ModelCall True conversation (Inr resp) # calls3"
        by simp_all
      show ?thesis
      proof (cases i)
        case 0
        with Suc.prems(3) eq have same: "p = conversation" "response = resp"
          by simp_all
        from run_tool_calls_follows [OF run] same
        have fol: "follows svc p response c2" by simp
        from tool_iterations_first [OF rec] fol eq 0 show ?thesis
          by (cases calls3) auto
      next
        case (Suc j)
        with Suc.prems eq have "j < length calls3" "calls3 ! j = ModelCall t p (Inr response)"
          by simp_all
        from Suc.IH [OF rec this Suc.prems(4)] eq Suc show ?thesis
          by simp
      qed
    qed
  qed
qed

text \<open>
  C3. Dispatch of a request whose tool name is not in the tool map returns the tool message
  saying the tool is not available, with the request's name and correlation identifier, and
  leaves the world as it is. In a run of \<open>generate_reply\<close>, a model response with such a
  request is followed by another model call, whose conversation is the one before, then the
  response, then one tool message per request, with that message at the request's place.
\<close>

theorem unregistered_tool_is_answered:
  assumes "tool_map svc (call_name call) = None"
  shows "call_tool svc (call_name call) (call_args call) (call_id call) w0 =
           (ToolMessage
              (ascii ''Requested tool '' @ [39] @ call_name call @ [39] @
               ascii '' is not available.'')
              (call_name call) (call_id call), w0) \<and>
         (\<forall>result mem' w' trace i p response k.
            generate_reply svc mem w user_message history conversation_id =
              (result, mem', w', trace) \<and>
            i < length trace \<and> trace ! i = ModelCall True p (Inr response) \<and>
            k < length (tool_calls response) \<and> tool_calls response ! k = call \<longrightarrow>
              Suc i < length trace \<and>
              length (prompt (trace ! Suc i)) = length p + 1 + length (tool_calls response) \<and>
              take (length p + 1) (prompt (trace ! Suc i)) = p @ [AIMessage response] \<and>
              prompt (trace ! Suc i) ! (length p + 1 + k) =
                ToolMessage
                  (ascii ''Requested tool '' @ [39] @ call_name call @ [39] @
                   ascii '' is not available.'')
                  (call_name call) (call_id call))"
proof (rule conjI)
  show "call_tool svc (call_name call) (call_args call) (call_id call) w0 =
           (ToolMessage
              (ascii ''Requested tool '' @ [39] @ call_name call @ [39] @
               ascii '' is not available.'')
              (call_name call) (call_id call), w0)"
    using call_tool_unregistered [OF assms] by (simp add: unavailable_def)
next
  have step: "Suc i < length trace \<and>
        length (prompt (trace ! Suc i)) = length p + 1 + length (tool_calls response) \<and>
        take (length p + 1) (prompt (trace ! Suc i)) = p @ [AIMessage response] \<and>
        prompt (trace ! Suc i) ! (length p + 1 + k) =
          ToolMessage
            (ascii ''Requested tool '' @ [39] @ call_name call @ [39] @
             ascii '' is not available.'')
            (call_name call) (call_id call)"
    if a: "generate_reply svc mem w user_message history conversation_id =
              (result, mem', w', trace) \<and>
            i < length trace \<and> trace ! i = ModelCall True p (Inr response) \<and>
            k < length (tool_calls response) \<and> tool_calls response ! k = call"
    for result mem' w' trace i p response k
  proof -
  from a have nonempty: "tool_calls response \<noteq> []" by auto
  from a generate_reply_run [of svc mem w user_message history conversation_id result mem' w' trace]
  obtain conversation r w1 calls where
    loop: "tool_iterations svc max_tool_iterations conversation w = (r, w1, calls)"
    and run: "case r of
         Inl exc \<Rightarrow> result = Inl exc \<and> trace = calls \<and> w' = w1
       | Inr (reply_text, c) \<Rightarrow>
           (\<exists>final_calls. final_reply svc reply_text c w1 = (result, w', final_calls) \<and>
              trace = calls @ final_calls)"
    by blast
  have next_prompt: "Suc i < length trace \<and> follows svc p response (prompt (trace ! Suc i))"
  proof (cases r)
    case (Inl exc)
    with run have tr: "trace = calls" by simp
    from tool_iterations_chain [OF loop, of i True p response] a tr nonempty Inl
    show ?thesis by (auto split: if_splits)
  next
    case (Inr rc)
    obtain reply_text c where rc: "rc = (reply_text, c)" by (cases rc)
    from run Inr rc obtain final_calls where
      fin: "final_reply svc reply_text c w1 = (result, w', final_calls)"
      and tr: "trace = calls @ final_calls"
      by auto
    have fc: "final_calls = [] \<or> (\<exists>final. reply_text = None \<and> final_calls = [ModelCall False c final])"
      using final_reply_calls [OF fin] by (cases reply_text) auto
    have i: "i < length calls"
    proof (rule ccontr)
      assume "\<not> i < length calls"
      with a tr fc show False
        by (auto simp: nth_append)
    qed
    with a tr have at: "calls ! i = ModelCall True p (Inr response)"
      by (simp add: nth_append)
    note chain = tool_iterations_chain [OF loop i at nonempty]
    show ?thesis
    proof (cases "Suc i < length calls")
      case True
      with chain tr show ?thesis by (simp add: nth_append)
    next
      case False
      with chain Inr rc obtain c' where c': "reply_text = None" "c' = c" "follows svc p response c"
        by auto
      with fc final_reply_calls [OF fin] obtain final where
        "final_calls = [ModelCall False c final]"
        by auto
      with False i tr c' show ?thesis
        by (simp add: nth_append)
    qed
  qed
  with a assms show ?thesis
    by (auto simp: follows_def unavailable_def)
  qed
  then show "\<forall>result mem' w' trace i p response k.
            generate_reply svc mem w user_message history conversation_id =
              (result, mem', w', trace) \<and>
            i < length trace \<and> trace ! i = ModelCall True p (Inr response) \<and>
            k < length (tool_calls response) \<and> tool_calls response ! k = call \<longrightarrow>
              Suc i < length trace \<and>
              length (prompt (trace ! Suc i)) = length p + 1 + length (tool_calls response) \<and>
              take (length p + 1) (prompt (trace ! Suc i)) = p @ [AIMessage response] \<and>
              prompt (trace ! Suc i) ! (length p + 1 + k) =
                ToolMessage
                  (ascii ''Requested tool '' @ [39] @ call_name call @ [39] @
                   ascii '' is not available.'')
                  (call_name call) (call_id call)"
    by blast
qed

theorem unregistered_tool_is_answered_witness:
  "tool_map asking_service (call_name lookup_call) = None \<and>
   call_tool asking_service (ascii ''lookup'') Map.empty (Some (ascii ''c1'')) () =
     (ToolMessage (ascii ''Requested tool '' @ [39] @ ascii ''lookup'' @ [39] @
        ascii '' is not available.'') (ascii ''lookup'') (Some (ascii ''c1'')), ()) \<and>
   prompt (snd (snd (snd (generate_reply asking_service (ConversationMemory 5) ()
      (ascii ''hi'') [] None))) ! 1) ! 3 =
     ToolMessage (ascii ''Requested tool '' @ [39] @ ascii ''lookup'' @ [39] @
        ascii '' is not available.'') (ascii ''lookup'') (Some (ascii ''c1''))"
proof -
  have h: "tool_map asking_service (call_name lookup_call) = None"
    by (simp add: asking_service_def)
  obtain result mem' trace where
    run: "generate_reply asking_service (ConversationMemory 5) () (ascii ''hi'') [] None =
            (result, mem', (), trace)"
    by (cases "generate_reply asking_service (ConversationMemory 5) () (ascii ''hi'') [] None")
      simp
  let ?p = "[SystemMessage SYSTEM_PROMPT, HumanMessage (ascii ''hi'')]"
  let ?response = "\<lparr>ai_content = ContentStr [], tool_calls = [lookup_call]\<rparr>"
  have first: "0 < length trace \<and> trace ! 0 = ModelCall True ?p (Inr ?response)"
    using run by (auto simp: run_defs asking_service_def eval_nat_numeral)
  note inst = unregistered_tool_is_answered [OF h, of "()" "ConversationMemory 5" "()"
      "ascii ''hi''" "[]" None]
  from inst have dispatch:
    "call_tool asking_service (ascii ''lookup'') Map.empty (Some (ascii ''c1'')) () =
     (ToolMessage (ascii ''Requested tool '' @ [39] @ ascii ''lookup'' @ [39] @
        ascii '' is not available.'') (ascii ''lookup'') (Some (ascii ''c1'')), ())"
    by (simp add: lookup_call_def)
  from inst [THEN conjunct2, rule_format, of result mem' "()" trace 0 ?p ?response 0] run first
  have "prompt (trace ! 1) ! 3 =
     ToolMessage (ascii ''Requested tool '' @ [39] @ ascii ''lookup'' @ [39] @
        ascii '' is not available.'') (ascii ''lookup'') (Some (ascii ''c1''))"
    by (simp add: lookup_call_def numeral_3_eq_3)
  with h dispatch run show ?thesis by simp
qed

end
